theory Spec2Isabelle
  imports Complex_Main
begin

section \<open>The conversion endpoint: \<open>POST /api/convert\<close>\<close>

text \<open>
  The route handler parses a JSON body, builds a chain of calls on an instance of the
  image library and answers with the encoded picture or with an error object.
  The library is not part of the repository, so the embedding keeps it as a parameter:
  what the handler contributes is which calls it issues, with which arguments and in
  which order, and how the outcome becomes an HTTP response.

  Numbers of the body are JavaScript numbers decoded from JSON. The handler only
  compares them and takes \<open>Math.max\<close> and \<open>Math.min\<close>, which are exact, so they are
  embedded as rationals. A field that is absent (\<open>undefined\<close>) is \<open>None\<close>. The
  embedding covers bodies that are JSON objects whose present fields have the JSON
  type of the documented interface: strings for \<open>image\<close> and \<open>format\<close>, numbers
  elsewhere, an object for \<open>filters\<close>.
\<close>

record filters =
  brightness :: "rat option"
  saturation :: "rat option"
  contrast :: "rat option"
  blur :: "rat option"
  sharpen :: "rat option"

text \<open>
  The fields of the request body. The names \<open>image\<close> and \<open>rotate\<close> are constants of
  HOL already and the batch settings below have fields \<open>format\<close>, \<open>quality\<close>, \<open>width\<close>
  and \<open>height\<close> of their own, so the fields of the body carry the suffix \<open>_b\<close>.
\<close>

record body =
  image_b :: "string option"
  format_b :: "string option"
  quality_b :: "rat option"
  width_b :: "rat option"
  height_b :: "rat option"
  rotate_b :: "rat option"
  filters_b :: "filters option"

text \<open>The options object the handler passes to \<open>resize\<close>.\<close>

record resize_options =
  fit :: string
  withoutEnlargement :: bool

text \<open>
  One constructor for each method of the library that the handler calls, with the
  arguments of the call. \<open>modulate\<close> is called with an object holding either
  \<open>brightness\<close> or \<open>saturation\<close>; the encoders are called with \<open>{ quality }\<close>.
\<close>

datatype sharp_call =
    Resize "rat option" "rat option" resize_options
  | Rotate rat
  | Modulate_brightness rat
  | Modulate_saturation rat
  | Linear rat rat
  | Blur rat
  | Sharpen rat
  | Png rat
  | Webp rat
  | Jpeg rat

text \<open>JavaScript truthiness of an optional number and of an optional string.\<close>

definition truthy_num :: "rat option \<Rightarrow> bool" where
  "truthy_num v = (case v of None \<Rightarrow> False | Some x \<Rightarrow> x \<noteq> 0)"

definition truthy_str :: "string option \<Rightarrow> bool" where
  "truthy_str v = (case v of None \<Rightarrow> False | Some s \<Rightarrow> s \<noteq> [])"

text \<open>The empty object \<open>{}\<close> as a filters object.\<close>

definition no_filters :: filters where
  "no_filters = \<lparr>brightness = None, saturation = None, contrast = None,
                  blur = None, sharpen = None\<rparr>"

text \<open>
  The stages of the handler, each the list of calls it adds to the instance
  (empty when its condition fails), in the order of the source text.
\<close>

definition resize_stage :: "rat option \<Rightarrow> rat option \<Rightarrow> sharp_call list" where
  "resize_stage width height =
     (if truthy_num width \<or> truthy_num height
      then [Resize width height \<lparr>fit = ''inside'', withoutEnlargement = True\<rparr>]
      else [])"

definition rotate_stage :: "rat option \<Rightarrow> sharp_call list" where
  "rotate_stage rot = (case rot of None \<Rightarrow> [] | Some r \<Rightarrow> if r \<noteq> 0 then [Rotate r] else [])"

definition brightness_stage :: "filters \<Rightarrow> sharp_call list" where
  "brightness_stage f = (case brightness f of None \<Rightarrow> [] | Some v \<Rightarrow> [Modulate_brightness v])"

definition saturation_stage :: "filters \<Rightarrow> sharp_call list" where
  "saturation_stage f = (case saturation f of None \<Rightarrow> [] | Some v \<Rightarrow> [Modulate_saturation v])"

definition contrast_stage :: "filters \<Rightarrow> sharp_call list" where
  "contrast_stage f = (case contrast f of None \<Rightarrow> [] | Some v \<Rightarrow> [Linear v 0])"

definition blur_stage :: "filters \<Rightarrow> sharp_call list" where
  "blur_stage f =
     (case blur f of
        None \<Rightarrow> []
      | Some v \<Rightarrow> if v > 0 then [Blur (max (3 / 10) (min 1000 v))] else [])"

definition sharpen_stage :: "filters \<Rightarrow> sharp_call list" where
  "sharpen_stage f =
     (case sharpen f of None \<Rightarrow> [] | Some v \<Rightarrow> if v > 0 then [Sharpen v] else [])"

definition format_stage :: "string \<Rightarrow> rat \<Rightarrow> sharp_call list" where
  "format_stage fmt q =
     (if fmt = ''png'' then [Png q]
      else if fmt = ''webp'' then [Webp q]
      else [Jpeg q])"

text \<open>The defaults of the destructuring: \<open>format = 'jpeg'\<close>, \<open>quality = 90\<close>, \<open>filters = {}\<close>.\<close>

definition format_of :: "body \<Rightarrow> string" where
  "format_of b = (case format_b b of None \<Rightarrow> ''jpeg'' | Some s \<Rightarrow> s)"

definition quality_of :: "body \<Rightarrow> rat" where
  "quality_of b = (case quality_b b of None \<Rightarrow> 90 | Some v \<Rightarrow> v)"

definition filters_of :: "body \<Rightarrow> filters" where
  "filters_of b = (case filters_b b of None \<Rightarrow> no_filters | Some g \<Rightarrow> g)"

text \<open>
  The calls the handler issues on the instance once \<open>image\<close> has passed the presence
  check: the stages one after the other.
\<close>

definition POST_calls :: "body \<Rightarrow> sharp_call list" where
  "POST_calls b =
     resize_stage (width_b b) (height_b b) @
     rotate_stage (rotate_b b) @
     brightness_stage (filters_of b) @
     saturation_stage (filters_of b) @
     contrast_stage (filters_of b) @
     blur_stage (filters_of b) @
     sharpen_stage (filters_of b) @
     format_stage (format_of b) (quality_of b)"

text \<open>
  The image library, as far as the handler can observe it. A call on the instance
  either returns the instance or throws on its arguments (\<open>accepts\<close>); the constructor
  may throw on the decoded input (\<open>constructs\<close>); \<open>toBuffer\<close> runs the pipeline on the
  input under the recorded calls and yields the output or throws. Input and output
  are kept in their base64 text, so \<open>Buffer.from\<close> and \<open>toString\<close> are part of
  \<open>toBuffer\<close>.
\<close>

record sharp_lib =
  constructs :: "string \<Rightarrow> bool"
  accepts :: "sharp_call \<Rightarrow> bool"
  toBuffer :: "string \<Rightarrow> sharp_call list \<Rightarrow> string option"

text \<open>
  The two kinds of response: \<open>NextResponse.json({ error }, { status })\<close> and the
  plain-text response that carries the base64 output.
\<close>

datatype response =
    Response_json nat string
  | Response_text nat string

definition status_of :: "response \<Rightarrow> nat" where
  "status_of r = (case r of Response_json st _ \<Rightarrow> st | Response_text st _ \<Rightarrow> st)"

text \<open>\<open>response.ok\<close>: a status in the range 200 to 299.\<close>

definition ok :: "response \<Rightarrow> bool" where
  "ok r = (200 \<le> status_of r \<and> status_of r \<le> 299)"

text \<open>
  \<open>response.text()\<close>. The callers read it on an \<open>ok\<close> response only; for an error
  object the message stands for its JSON text.
\<close>

definition text_of :: "response \<Rightarrow> string" where
  "text_of r = (case r of Response_json _ msg \<Rightarrow> msg | Response_text _ t \<Rightarrow> t)"

text \<open>
  The handler. Everything after the presence check runs inside \<open>try\<close>, and every
  exception ends in the same response with status 500.
\<close>

definition POST :: "sharp_lib \<Rightarrow> body \<Rightarrow> response" where
  "POST lib b =
     (if \<not> truthy_str (image_b b) then Response_json 400 ''No image data provided''
      else
        (case image_b b of
           None \<Rightarrow> Response_json 400 ''No image data provided''
         | Some img \<Rightarrow>
             if \<not> constructs lib img then Response_json 500 ''Failed to process image''
             else if \<not> list_all (accepts lib) (POST_calls b)
               then Response_json 500 ''Failed to process image''
             else
               (case toBuffer lib img (POST_calls b) of
                  None \<Rightarrow> Response_json 500 ''Failed to process image''
                | Some out \<Rightarrow> Response_text 200 out)))"

subsection \<open>Stage order\<close>

text \<open>
  The position of each call in the source text of the handler: resize, rotation,
  brightness, saturation, contrast, blur, sharpen, then the encoder.
\<close>

definition source_position :: "sharp_call \<Rightarrow> nat" where
  "source_position c =
     (case c of
        Resize _ _ _ \<Rightarrow> 0
      | Rotate _ \<Rightarrow> 1
      | Modulate_brightness _ \<Rightarrow> 2
      | Modulate_saturation _ \<Rightarrow> 3
      | Linear _ _ \<Rightarrow> 4
      | Blur _ \<Rightarrow> 5
      | Sharpen _ \<Rightarrow> 6
      | Png _ \<Rightarrow> 7
      | Webp _ \<Rightarrow> 7
      | Jpeg _ \<Rightarrow> 7)"

text \<open>
  The stages the specification speaks of, and the stage each library call belongs to.
  No call of the handler crops (the library's cropping method is never called), so no
  call is mapped to \<open>Crop_stage\<close>.
\<close>

datatype stage = Crop_stage | Rotation_stage | Adjust_stage | Resize_stage | Encode_stage

definition stage_of :: "sharp_call \<Rightarrow> stage" where
  "stage_of c =
     (case c of
        Resize _ _ _ \<Rightarrow> Resize_stage
      | Rotate _ \<Rightarrow> Rotation_stage
      | Modulate_brightness _ \<Rightarrow> Adjust_stage
      | Modulate_saturation _ \<Rightarrow> Adjust_stage
      | Linear _ _ \<Rightarrow> Adjust_stage
      | Blur _ \<Rightarrow> Adjust_stage
      | Sharpen _ \<Rightarrow> Adjust_stage
      | Png _ \<Rightarrow> Encode_stage
      | Webp _ \<Rightarrow> Encode_stage
      | Jpeg _ \<Rightarrow> Encode_stage)"

text \<open>
  The order as the specification words it: crop, rotation, colour and blur
  adjustments, resize, encoding.
\<close>

definition spec_position :: "stage \<Rightarrow> nat" where
  "spec_position st =
     (case st of
        Crop_stage \<Rightarrow> 0
      | Rotation_stage \<Rightarrow> 1
      | Adjust_stage \<Rightarrow> 2
      | Resize_stage \<Rightarrow> 3
      | Encode_stage \<Rightarrow> 4)"

definition spec_order :: "sharp_call list \<Rightarrow> bool" where
  "spec_order cs = sorted (map (\<lambda>c. spec_position (stage_of c)) cs)"

definition is_encoder :: "sharp_call \<Rightarrow> bool" where
  "is_encoder c = (case c of Png _ \<Rightarrow> True | Webp _ \<Rightarrow> True | Jpeg _ \<Rightarrow> True | _ \<Rightarrow> False)"

definition is_blur :: "sharp_call \<Rightarrow> bool" where
  "is_blur c = (case c of Blur _ \<Rightarrow> True | _ \<Rightarrow> False)"

text \<open>A list of positions that ascends strictly and starts at \<open>k\<close> or later.\<close>

definition ascending_from :: "nat \<Rightarrow> nat list \<Rightarrow> bool" where
  "ascending_from k xs = (sorted_wrt (<) xs \<and> list_all (\<lambda>x. k \<le> x) xs)"

subsection \<open>The resize primitive\<close>

text \<open>
  The handler only issues the resize call; the dimensions of the result are computed
  by the resize primitive of the image library, which is not in the repository. The
  definitions of this subsection follow the description of that primitive in the
  specification.
\<close>

text \<open>The smaller of two optional numbers, an absent one not counting.\<close>

definition min_opt :: "rat option \<Rightarrow> rat option \<Rightarrow> rat option" where
  "min_opt a b =
     (case a of
        None \<Rightarrow> b
      | Some x \<Rightarrow> (case b of None \<Rightarrow> Some x | Some y \<Rightarrow> Some (min x y)))"

text \<open>
  Modelled from the spec: the rounding of the library's resize primitive is missing
  from the repository. A side of \<open>n\<close> pixels under the scale factor \<open>s\<close>: scaled,
  rounded to whole pixels, and never less than one pixel.
\<close>

definition scaled :: "nat \<Rightarrow> rat \<Rightarrow> nat" where
  "scaled n s = max 1 (nat (round (of_nat n * s)))"

text \<open>
  Modelled from the spec: the library's resize primitive for \<open>fit: 'inside'\<close> is missing
  from the repository. The specification describes it as fitting the picture inside
  the target box, preserving the aspect ratio and never enlarging: one scale factor,
  the smaller of the two ratios target over source (the one ratio when a single
  dimension is given), capped at 1 when enlargement is excluded, applied to both
  sides. Without any target dimension the picture keeps its size.
\<close>

definition fit_inside :: "bool \<Rightarrow> nat \<times> nat \<Rightarrow> rat option \<Rightarrow> rat option \<Rightarrow> nat \<times> nat" where
  "fit_inside noEnlarge src tw th =
     (case src of (sw, sh) \<Rightarrow>
        (case min_opt (map_option (\<lambda>w. w / of_nat sw) tw) (map_option (\<lambda>h. h / of_nat sh) th) of
           None \<Rightarrow> (sw, sh)
         | Some r \<Rightarrow>
             (let s = (if noEnlarge then min 1 r else r)
              in (scaled sw s, scaled sh s))))"

text \<open>
  Modelled from the spec: what a resize call of the library returns, in dimensions;
  \<open>None\<close> for a \<open>fit\<close> the specification does not describe.
\<close>

definition resize_output :: "sharp_call \<Rightarrow> nat \<times> nat \<Rightarrow> (nat \<times> nat) option" where
  "resize_output c src =
     (case c of
        Resize w h opts \<Rightarrow>
          if fit opts = ''inside'' then Some (fit_inside (withoutEnlargement opts) src w h)
          else None
      | _ \<Rightarrow> None)"

text \<open>The dimensions after the resize stage of the handler, on a picture of size \<open>src\<close>.\<close>

definition resized :: "body \<Rightarrow> nat \<times> nat \<Rightarrow> (nat \<times> nat) option" where
  "resized b src =
     (case resize_stage (width_b b) (height_b b) of
        [] \<Rightarrow> Some src
      | c # _ \<Rightarrow> resize_output c src)"

text \<open>
  Modelled from the spec: the rotation primitive of the library is missing from the
  repository. The specification singles out the multiples of 90 degrees as the
  rotations without an expansion of the bounding box: a whole number of half turns
  keeps the dimensions and an odd number of quarter turns exchanges them. For every
  other angle the specification gives no dimensions (\<open>None\<close>).
\<close>

definition rotate_output :: "rat \<Rightarrow> nat \<times> nat \<Rightarrow> (nat \<times> nat) option" where
  "rotate_output r src =
     (case src of (w, h) \<Rightarrow>
        if of_int \<lfloor>r / 90\<rfloor> = r / 90
        then (if even \<lfloor>r / 90\<rfloor> then Some (w, h) else Some (h, w))
        else None)"

text \<open>
  The dimensions after one call of the handler: resize and rotation change them, the
  colour and blur calls and the encoders keep them.
\<close>

definition call_output :: "sharp_call \<Rightarrow> nat \<times> nat \<Rightarrow> (nat \<times> nat) option" where
  "call_output c src =
     (case c of
        Resize _ _ _ \<Rightarrow> resize_output c src
      | Rotate r \<Rightarrow> rotate_output r src
      | _ \<Rightarrow> Some src)"

fun output_dims :: "sharp_call list \<Rightarrow> nat \<times> nat \<Rightarrow> (nat \<times> nat) option" where
  "output_dims [] src = Some src"
| "output_dims (c # cs) src =
     (case call_output c src of None \<Rightarrow> None | Some d \<Rightarrow> output_dims cs d)"

text \<open>
  The dimensions of the picture the handler returns for a source picture of size
  \<open>src\<close>: its calls applied in the order in which it issues them.
\<close>

definition returned_dims :: "body \<Rightarrow> nat \<times> nat \<Rightarrow> (nat \<times> nat) option" where
  "returned_dims b src = output_dims (POST_calls b) src"

text \<open>A target dimension of the documented domain: absent, or a positive whole number.\<close>

definition target_ok :: "rat option \<Rightarrow> bool" where
  "target_ok t = (case t of None \<Rightarrow> True | Some x \<Rightarrow> 0 < x \<and> of_int \<lfloor>x\<rfloor> = x)"

section \<open>The batch converter\<close>

text \<open>
  The component keeps three pieces of state: the list of files, the shared settings
  and the flag \<open>isProcessing\<close>. Its handlers become functions on that state. The
  browser and the network are parameters: reading a file as a data URL, creating a
  preview URL, and \<open>fetch\<close> on the conversion endpoint.
\<close>

datatype status = Pending | Processing | Completed | Error

text \<open>A browser \<open>File\<close>: its name, its MIME type and its content (in base64 text).\<close>

record File =
  name :: string
  type_f :: string
  bytes :: string

text \<open>
  The identifier is the string \<open>`${Date.now()}-${index}`\<close>; it is kept as the pair of
  the two numbers. \<open>id\<close> is a constant of HOL and \<open>file\<close> a keyword, so the two fields
  are \<open>id_f\<close> and \<open>file_f\<close>.
\<close>

record BatchFile =
  id_f :: "nat \<times> nat"
  file_f :: File
  preview :: string
  status :: status
  result :: "string option"
  error :: "string option"

record BatchSettings =
  format :: string
  quality :: rat
  width :: "rat option"
  height :: "rat option"
  maintainAspectRatio :: bool

record state =
  files :: "BatchFile list"
  settings :: BatchSettings
  isProcessing :: bool

text \<open>
  The environment. \<open>readAsDataURL\<close> is \<open>None\<close> when the read fails: the reader has no
  error handler, so \<open>onload\<close> never fires and the promise of \<open>processFile\<close> is never
  resolved. \<open>fetch\<close> is \<open>None\<close> when the request is rejected (a network error).
\<close>

record env =
  readAsDataURL :: "File \<Rightarrow> string option"
  createObjectURL :: "File \<Rightarrow> string"
  fetch :: "body \<Rightarrow> response option"

definition initial_state :: state where
  "initial_state =
     \<lparr>files = [],
      settings = \<lparr>format = ''webp'', quality = 85, width = None, height = None,
                  maintainAspectRatio = True\<rparr>,
      isProcessing = False\<rparr>"

text \<open>\<open>String.prototype.split\<close> with a separator of one character, and indexing.\<close>

fun split_str :: "char \<Rightarrow> string \<Rightarrow> string list" where
  "split_str c [] = [[]]"
| "split_str c (x # xs) =
     (if x = c then [] # split_str c xs
      else (case split_str c xs of [] \<Rightarrow> [[x]] | w # ws \<Rightarrow> (x # w) # ws))"

definition nth_opt :: "'a list \<Rightarrow> nat \<Rightarrow> 'a option" where
  "nth_opt xs n = (if n < length xs then Some (xs ! n) else None)"

text \<open>
  \<open>handleFileSelect\<close>: the images among the selected files are appended as pending.
  \<open>now i\<close> is the reading of \<open>Date.now()\<close> when the file at index \<open>i\<close> is visited.
\<close>

definition handleFileSelect :: "env \<Rightarrow> (nat \<Rightarrow> nat) \<Rightarrow> File list \<Rightarrow> state \<Rightarrow> state" where
  "handleFileSelect e now selectedFiles s =
     (let newFiles =
            concat (map (\<lambda>(index, f).
                      if take 6 (type_f f) = ''image/''
                      then [\<lparr>id_f = (now index, index), file_f = f, preview = createObjectURL e f,
                             status = Pending, result = None, error = None\<rparr>]
                      else [])
                    (zip [0 ..< length selectedFiles] selectedFiles))
      in s\<lparr>files := files s @ newFiles\<rparr>)"

definition removeFile :: "nat \<times> nat \<Rightarrow> state \<Rightarrow> state" where
  "removeFile i s = s\<lparr>files := filter (\<lambda>f. id_f f \<noteq> i) (files s)\<rparr>"

text \<open>The two functional updates of \<open>setFiles\<close> inside \<open>processFile\<close>.\<close>

definition set_completed :: "nat \<times> nat \<Rightarrow> string \<Rightarrow> BatchFile list \<Rightarrow> BatchFile list" where
  "set_completed i processedBase64 prev =
     map (\<lambda>f. if id_f f = i then f\<lparr>status := Completed, result := Some processedBase64\<rparr> else f) prev"

definition set_error :: "nat \<times> nat \<Rightarrow> BatchFile list \<Rightarrow> BatchFile list" where
  "set_error i prev =
     map (\<lambda>f. if id_f f = i then f\<lparr>status := Error, error := Some ''Failed to process''\<rparr> else f) prev"

text \<open>The JSON body \<open>processFile\<close> sends; fields that are \<open>undefined\<close> are left out.\<close>

definition request_body :: "BatchSettings \<Rightarrow> string option \<Rightarrow> body" where
  "request_body st base64 =
     \<lparr>image_b = base64, format_b = Some (format st), quality_b = Some (quality st),
      width_b = width st, height_b = height st, rotate_b = None, filters_b = None\<rparr>"

text \<open>
  \<open>processFile\<close>, as a function on the current list of files. The settings are those
  of the render the running handler belongs to. \<open>None\<close>: the promise never resolves.
\<close>

definition processFile :: "env \<Rightarrow> BatchSettings \<Rightarrow> BatchFile \<Rightarrow> BatchFile list \<Rightarrow> BatchFile list option" where
  "processFile e st batchFile prev =
     (case readAsDataURL e (file_f batchFile) of
        None \<Rightarrow> None
      | Some url \<Rightarrow>
          (let base64 = nth_opt (split_str CHR '','' url) 1
           in case fetch e (request_body st base64) of
                None \<Rightarrow> Some (set_error (id_f batchFile) prev)
              | Some resp \<Rightarrow>
                  if ok resp then Some (set_completed (id_f batchFile) (text_of resp) prev)
                  else Some (set_error (id_f batchFile) prev)))"

text \<open>The \<open>for\<close> loop of \<open>processAllFiles\<close> over the files of its render.\<close>

fun for_files :: "env \<Rightarrow> BatchSettings \<Rightarrow> BatchFile list \<Rightarrow> BatchFile list \<Rightarrow> BatchFile list option" where
  "for_files e st [] cur = Some cur"
| "for_files e st (f # rest) cur =
     (case processFile e st f cur of
        None \<Rightarrow> None
      | Some cur' \<Rightarrow> for_files e st rest cur')"

text \<open>The first two state updates of \<open>processAllFiles\<close>.\<close>

definition begin_run :: "state \<Rightarrow> state" where
  "begin_run s =
     s\<lparr>isProcessing := True, files := map (\<lambda>f. f\<lparr>status := Processing\<rparr>) (files s)\<rparr>"

definition processAllFiles :: "env \<Rightarrow> state \<Rightarrow> state option" where
  "processAllFiles e s =
     (case for_files e (settings s) (files s) (files (begin_run s)) of
        None \<Rightarrow> None
      | Some cur \<Rightarrow> Some ((begin_run s)\<lparr>files := cur, isProcessing := False\<rparr>))"

text \<open>
  The state of a run after its first \<open>k\<close> files: the loop has gone through
  \<open>take k\<close> of the files and awaits the next one.
\<close>

definition during_run :: "env \<Rightarrow> state \<Rightarrow> nat \<Rightarrow> state option" where
  "during_run e s k =
     (case for_files e (settings s) (take k (files s)) (files (begin_run s)) of
        None \<Rightarrow> None
      | Some cur \<Rightarrow> Some ((begin_run s)\<lparr>files := cur\<rparr>))"

text \<open>
  The buttons: ``Convert'' is disabled while there is no file or a run is active,
  ``Remove'' while a run is active.
\<close>

definition click_convert :: "env \<Rightarrow> state \<Rightarrow> state option" where
  "click_convert e s = (if files s = [] \<or> isProcessing s then Some s else processAllFiles e s)"

definition click_remove :: "nat \<times> nat \<Rightarrow> state \<Rightarrow> state" where
  "click_remove i s = (if isProcessing s then s else removeFile i s)"

definition count_status :: "status \<Rightarrow> BatchFile list \<Rightarrow> nat" where
  "count_status st fs = length (filter (\<lambda>f. status f = st) fs)"

subsection \<open>The settings panel\<close>

text \<open>
  The \<open>onChange\<close> handlers of the settings panel. None of the inputs is disabled during
  a run and none of the handlers looks at \<open>isProcessing\<close>. The number inputs of width
  and height store \<open>Number(value) || undefined\<close>.
\<close>

datatype change =
    Change_format string
  | Change_quality rat
  | Change_width rat
  | Change_height rat
  | Change_aspect bool

definition setSettings :: "change \<Rightarrow> state \<Rightarrow> state" where
  "setSettings c s =
     (let prev = settings s
      in s\<lparr>settings :=
            (case c of
               Change_format v \<Rightarrow> prev\<lparr>format := v\<rparr>
             | Change_quality v \<Rightarrow> prev\<lparr>quality := v\<rparr>
             | Change_width v \<Rightarrow> prev\<lparr>width := (if v \<noteq> 0 then Some v else None)\<rparr>
             | Change_height v \<Rightarrow> prev\<lparr>height := (if v \<noteq> 0 then Some v else None)\<rparr>
             | Change_aspect v \<Rightarrow> prev\<lparr>maintainAspectRatio := v\<rparr>)\<rparr>)"

text \<open>
  A run during which the user changes settings: \<open>changes\<close> holds, for each file of the
  run, the changes made while that file is awaited. The loop keeps the settings \<open>st\<close>
  of the render in which the run was started.
\<close>

fun for_files_changing ::
  "env \<Rightarrow> BatchSettings \<Rightarrow> BatchFile list \<Rightarrow> change list list \<Rightarrow> state \<Rightarrow> state option" where
  "for_files_changing e st [] changes s = Some s"
| "for_files_changing e st (f # rest) changes s =
     (let s' = fold setSettings (case changes of [] \<Rightarrow> [] | cs # _ \<Rightarrow> cs) s
      in case processFile e st f (files s') of
           None \<Rightarrow> None
         | Some cur \<Rightarrow> for_files_changing e st rest (tl changes) (s'\<lparr>files := cur\<rparr>))"

definition processAllFiles_changing :: "env \<Rightarrow> change list list \<Rightarrow> state \<Rightarrow> state option" where
  "processAllFiles_changing e changes s =
     (case for_files_changing e (settings s) (files s) changes (begin_run s) of
        None \<Rightarrow> None
      | Some s' \<Rightarrow> Some (s'\<lparr>isProcessing := False\<rparr>))"

subsection \<open>What a run makes of one file\<close>

text \<open>
  Notions for the statements below, derived from \<open>processFile\<close>: whether the read of a
  file succeeds; the text of the converted file when the read succeeds and the
  endpoint answers \<open>ok\<close>; the update \<open>processFile\<close> then applies to one entry of the
  list; the status it leaves on the entries with the identifier of the file.
\<close>

definition loads :: "env \<Rightarrow> BatchFile \<Rightarrow> bool" where
  "loads e f = (readAsDataURL e (file_f f) \<noteq> None)"

definition converted :: "env \<Rightarrow> BatchSettings \<Rightarrow> BatchFile \<Rightarrow> string option" where
  "converted e st f =
     (case readAsDataURL e (file_f f) of
        None \<Rightarrow> None
      | Some url \<Rightarrow>
          (case fetch e (request_body st (nth_opt (split_str CHR '','' url) 1)) of
             None \<Rightarrow> None
           | Some resp \<Rightarrow> if ok resp then Some (text_of resp) else None))"

definition settled :: "env \<Rightarrow> BatchSettings \<Rightarrow> BatchFile \<Rightarrow> BatchFile \<Rightarrow> BatchFile" where
  "settled e st f g =
     (if id_f g = id_f f
      then (case converted e st f of
              Some t \<Rightarrow> g\<lparr>status := Completed, result := Some t\<rparr>
            | None \<Rightarrow> g\<lparr>status := Error, error := Some ''Failed to process''\<rparr>)
      else g)"

definition outcome :: "env \<Rightarrow> BatchSettings \<Rightarrow> BatchFile \<Rightarrow> status" where
  "outcome e st f = (case converted e st f of Some _ \<Rightarrow> Completed | None \<Rightarrow> Error)"

section \<open>Test data\<close>

text \<open>
  A library that accepts every call and returns its input, except on the one input
  it cannot decode; a body that carries nothing but the image.
\<close>

definition test_lib :: sharp_lib where
  "test_lib =
     \<lparr>constructs = (\<lambda>img. True),
      accepts = (\<lambda>c. True),
      toBuffer = (\<lambda>img cs. if img = ''Y29ycnVwdA=='' then None else Some img)\<rparr>"

definition image_only :: "string \<Rightarrow> body" where
  "image_only img =
     \<lparr>image_b = Some img, format_b = None, quality_b = None, width_b = None,
      height_b = None, rotate_b = None, filters_b = None\<rparr>"

text \<open>
  A browser whose reads succeed and whose requests reach the handler above; a file
  enrolled as the \<open>i\<close>-th of one selection.
\<close>

definition test_env :: env where
  "test_env =
     \<lparr>readAsDataURL = (\<lambda>f. Some (''data:'' @ type_f f @ '';base64,'' @ bytes f)),
      createObjectURL = (\<lambda>f. ''blob:'' @ name f),
      fetch = (\<lambda>b. Some (POST test_lib b))\<rparr>"

definition enrolled :: "nat \<Rightarrow> string \<Rightarrow> status \<Rightarrow> BatchFile" where
  "enrolled i content st =
     \<lparr>id_f = (0, i),
      file_f = \<lparr>name = ''picture.png'', type_f = ''image/png'', bytes = content\<rparr>,
      preview = ''blob:picture.png'', status = st, result = None, error = None\<rparr>"

text \<open>
  Three files enrolled, the second one corrupt; one file after a first run.
\<close>

definition three_files :: state where
  "three_files =
     initial_state\<lparr>files := [enrolled 0 ''aW1n'' Pending,
                            enrolled 1 ''Y29ycnVwdA=='' Pending,
                            enrolled 2 ''aW1n'' Pending]\<rparr>"

definition done_once :: state where
  "done_once =
     initial_state\<lparr>files := [(enrolled 0 ''aW1n'' Completed)\<lparr>result := Some ''aW1n''\<rparr>]\<rparr>"




text \<open>
  A browser in which the read of the second of the three files fails; two files that
  were given the same identifier, the second one corrupt.
\<close>

definition unreadable_env :: env where
  "unreadable_env =
     test_env\<lparr>readAsDataURL :=
       (\<lambda>f. if bytes f = ''Y29ycnVwdA=='' then None
            else Some (''data:'' @ type_f f @ '';base64,'' @ bytes f))\<rparr>"

definition same_id_files :: state where
  "same_id_files =
     initial_state\<lparr>files := [enrolled 0 ''aW1n'' Pending,
                            enrolled 0 ''Y29ycnVwdA=='' Pending]\<rparr>"

section \<open>Properties of the conversion endpoint\<close>

lemma resize_stage_position:
  "map source_position (resize_stage w h) = (if truthy_num w \<or> truthy_num h then [0] else [])"
  by (simp add: resize_stage_def source_position_def)

lemma rotate_stage_position:
  "map source_position (rotate_stage r) = (if truthy_num r then [1] else [])"
  by (simp add: rotate_stage_def truthy_num_def source_position_def split: option.splits)

lemma brightness_stage_position:
  "map source_position (brightness_stage f) = (if brightness f \<noteq> None then [2] else [])"
  by (simp add: brightness_stage_def source_position_def split: option.splits)

lemma saturation_stage_position:
  "map source_position (saturation_stage f) = (if saturation f \<noteq> None then [3] else [])"
  by (simp add: saturation_stage_def source_position_def split: option.splits)

lemma contrast_stage_position:
  "map source_position (contrast_stage f) = (if contrast f \<noteq> None then [4] else [])"
  by (simp add: contrast_stage_def source_position_def split: option.splits)

lemma blur_stage_position:
  "map source_position (blur_stage f) = (if \<exists>v. blur f = Some v \<and> 0 < v then [5] else [])"
  by (simp add: blur_stage_def source_position_def split: option.splits)

lemma sharpen_stage_position:
  "map source_position (sharpen_stage f) = (if \<exists>v. sharpen f = Some v \<and> 0 < v then [6] else [])"
  by (simp add: sharpen_stage_def source_position_def split: option.splits)

lemma format_stage_position: "map source_position (format_stage fmt q) = [7]"
  by (simp add: format_stage_def source_position_def)

lemma ascending_from_step:
  "ascending_from k' xs \<Longrightarrow> k' = k + 1 \<Longrightarrow> ascending_from k ((if c then [k] else []) @ xs)"
  by (auto simp: ascending_from_def list_all_iff)

lemma POST_calls_ascending: "ascending_from 0 (map source_position (POST_calls b))"
proof -
  let ?f = "filters_of b"
  let ?s7 = "format_stage (format_of b) (quality_of b)"
  let ?s6 = "sharpen_stage ?f @ ?s7"
  let ?s5 = "blur_stage ?f @ ?s6"
  let ?s4 = "contrast_stage ?f @ ?s5"
  let ?s3 = "saturation_stage ?f @ ?s4"
  let ?s2 = "brightness_stage ?f @ ?s3"
  let ?s1 = "rotate_stage (rotate_b b) @ ?s2"
  let ?s0 = "resize_stage (width_b b) (height_b b) @ ?s1"
  have a7: "ascending_from 7 (map source_position ?s7)"
    by (simp add: format_stage_position ascending_from_def)
  have a6: "ascending_from 6 (map source_position ?s6)"
    unfolding map_append [of _ "sharpen_stage ?f"] sharpen_stage_position
    by (rule ascending_from_step [OF a7]) simp
  have a5: "ascending_from 5 (map source_position ?s5)"
    unfolding map_append [of _ "blur_stage ?f"] blur_stage_position
    by (rule ascending_from_step [OF a6]) simp
  have a4: "ascending_from 4 (map source_position ?s4)"
    unfolding map_append [of _ "contrast_stage ?f"] contrast_stage_position
    by (rule ascending_from_step [OF a5]) simp
  have a3: "ascending_from 3 (map source_position ?s3)"
    unfolding map_append [of _ "saturation_stage ?f"] saturation_stage_position
    by (rule ascending_from_step [OF a4]) simp
  have a2: "ascending_from 2 (map source_position ?s2)"
    unfolding map_append [of _ "brightness_stage ?f"] brightness_stage_position
    by (rule ascending_from_step [OF a3]) simp
  have a1: "ascending_from 1 (map source_position ?s1)"
    unfolding map_append [of _ "rotate_stage (rotate_b b)"] rotate_stage_position
    by (rule ascending_from_step [OF a2]) simp
  have a0: "ascending_from 0 (map source_position ?s0)"
    unfolding map_append [of _ "resize_stage (width_b b) (height_b b)"] resize_stage_position
    by (rule ascending_from_step [OF a1]) simp
  then show ?thesis
    by (simp only: POST_calls_def)
qed

lemmas POST_calls_unfold =
  POST_calls_def image_only_def resize_stage_def rotate_stage_def
  brightness_stage_def saturation_stage_def contrast_stage_def blur_stage_def
  sharpen_stage_def format_stage_def filters_of_def format_of_def quality_of_def
  no_filters_def truthy_num_def

lemma format_stage_cases:
  "format_stage fmt q =
     [if fmt = ''png'' then Png q else if fmt = ''webp'' then Webp q else Jpeg q]"
  by (simp add: format_stage_def)

lemma POST_calls_last:
  "POST_calls b \<noteq> [] \<and>
   last (POST_calls b) =
     (if format_of b = ''png'' then Png (quality_of b)
      else if format_of b = ''webp'' then Webp (quality_of b)
      else Jpeg (quality_of b))"
  by (simp add: POST_calls_def format_stage_cases)

text \<open>
  Claim C1, as the specification states it: the stages run in the order crop, rotation,
  colour and blur adjustments, resize, encoding, so that resize comes after the
  adjustments. The handler does not do that. For a request with a width and a
  brightness it issues the resize call first and the brightness call after it, so the
  list of its calls is not in the order of the specification.
\<close>

theorem resize_before_adjustments:
  "POST_calls ((image_only ''aW1n'')
      \<lparr>width_b := Some 800, filters_b := Some (no_filters\<lparr>brightness := Some (6 / 5)\<rparr>)\<rparr>)
     = [Resize (Some 800) None \<lparr>fit = ''inside'', withoutEnlargement = True\<rparr>,
        Modulate_brightness (6 / 5), Jpeg 90] \<and>
   \<not> spec_order (POST_calls ((image_only ''aW1n'')
      \<lparr>width_b := Some 800, filters_b := Some (no_filters\<lparr>brightness := Some (6 / 5)\<rparr>)\<rparr>))"
  by (simp add: POST_calls_unfold spec_order_def stage_of_def spec_position_def)

text \<open>
  Claim C1, as the handler has it: for every request the calls on the library are
  issued in the fixed order resize, rotation, brightness, saturation, contrast, blur,
  sharpen, encoder, each stage at most once; the encoder call is always there and is
  the last call; no call crops. In particular the resize call comes before every
  adjustment.
\<close>

theorem calls_in_source_order:
  "sorted_wrt (<) (map source_position (POST_calls b)) \<and>
   POST_calls b \<noteq> [] \<and> is_encoder (last (POST_calls b)) \<and>
   list_all (\<lambda>c. stage_of c \<noteq> Crop_stage) (POST_calls b)"
proof -
  have "stage_of c \<noteq> Crop_stage" for c
    by (cases c) (simp_all add: stage_of_def)
  then have "list_all (\<lambda>c. stage_of c \<noteq> Crop_stage) (POST_calls b)"
    by (simp add: list_all_iff)
  moreover have "is_encoder (last (POST_calls b))"
    by (simp add: POST_calls_last is_encoder_def)
  ultimately show ?thesis
    using POST_calls_ascending [of b] POST_calls_last [of b]
    by (simp add: ascending_from_def)
qed

theorem calls_in_source_order_witness:
  "sorted_wrt (<) (map source_position
      [Resize (Some 800) None \<lparr>fit = ''inside'', withoutEnlargement = True\<rparr>,
       Modulate_brightness (6 / 5), Jpeg 90]) \<and>
   is_encoder (Jpeg 90)"
  using calls_in_source_order [of "(image_only ''aW1n'')
      \<lparr>width_b := Some 800, filters_b := Some (no_filters\<lparr>brightness := Some (6 / 5)\<rparr>)\<rparr>"]
  by (simp add: POST_calls_unfold)

subsection \<open>The output format\<close>

lemma POST_calls_format_jpeg:
  assumes "format_b b \<noteq> Some ''png''" and "format_b b \<noteq> Some ''webp''"
  shows "POST_calls b = POST_calls (b\<lparr>format_b := Some ''jpeg''\<rparr>)"
proof -
  have "format_stage (format_of b) (quality_of b) = [Jpeg (quality_of b)]"
    using assms by (cases "format_b b") (auto simp: format_stage_def format_of_def)
  moreover have "format_stage (format_of (b\<lparr>format_b := Some ''jpeg''\<rparr>)) (quality_of b)
      = [Jpeg (quality_of b)]"
    by (simp add: format_stage_def format_of_def)
  ultimately show ?thesis
    by (simp add: POST_calls_def filters_of_def quality_of_def)
qed

text \<open>
  Claim C10: when the \<open>format\<close> field is absent or is any string other than \<open>png\<close> and
  \<open>webp\<close>, the encoder call is the JPEG one, and the handler answers exactly as it does
  for the same request with \<open>format: 'jpeg'\<close>: the format value itself never leads to an
  error.
\<close>

theorem other_format_is_jpeg:
  assumes "format_b b \<noteq> Some ''png''" and "format_b b \<noteq> Some ''webp''"
  shows "last (POST_calls b) = Jpeg (quality_of b) \<and>
         POST lib b = POST lib (b\<lparr>format_b := Some ''jpeg''\<rparr>)"
proof
  have "format_of b \<noteq> ''png''" and "format_of b \<noteq> ''webp''"
    using assms by (cases "format_b b"; auto simp: format_of_def)+
  then show "last (POST_calls b) = Jpeg (quality_of b)"
    by (simp add: POST_calls_last)
  show "POST lib b = POST lib (b\<lparr>format_b := Some ''jpeg''\<rparr>)"
    unfolding POST_def POST_calls_format_jpeg [OF assms, symmetric] by simp
qed

theorem other_format_is_jpeg_witness:
  "last (POST_calls ((image_only ''aW1n'')\<lparr>format_b := Some ''gif''\<rparr>)) = Jpeg 90 \<and>
   POST test_lib ((image_only ''aW1n'')\<lparr>format_b := Some ''gif''\<rparr>) =
     POST test_lib ((image_only ''aW1n'')\<lparr>format_b := Some ''jpeg''\<rparr>) \<and>
   last (POST_calls (image_only ''aW1n'')) = Jpeg 90"
  using other_format_is_jpeg [of "(image_only ''aW1n'')\<lparr>format_b := Some ''gif''\<rparr>" test_lib]
    other_format_is_jpeg [of "image_only ''aW1n''" test_lib]
  by (simp add: image_only_def quality_of_def)

subsection \<open>Blur\<close>

lemma blur_calls: "filter is_blur (POST_calls b) = blur_stage (filters_of b)"
proof -
  have "filter is_blur (resize_stage w h) = []" for w h
    by (simp add: resize_stage_def is_blur_def)
  moreover have "filter is_blur (rotate_stage r) = []" for r
    by (simp add: rotate_stage_def is_blur_def split: option.splits)
  moreover have "filter is_blur (brightness_stage f) = []" for f
    by (simp add: brightness_stage_def is_blur_def split: option.splits)
  moreover have "filter is_blur (saturation_stage f) = []" for f
    by (simp add: saturation_stage_def is_blur_def split: option.splits)
  moreover have "filter is_blur (contrast_stage f) = []" for f
    by (simp add: contrast_stage_def is_blur_def split: option.splits)
  moreover have "filter is_blur (sharpen_stage f) = []" for f
    by (simp add: sharpen_stage_def is_blur_def split: option.splits)
  moreover have "filter is_blur (format_stage fmt q) = []" for fmt q
    by (simp add: format_stage_def is_blur_def)
  moreover have "filter is_blur (blur_stage f) = blur_stage f" for f
    by (simp add: blur_stage_def is_blur_def split: option.splits)
  ultimately show ?thesis
    by (simp add: POST_calls_def)
qed

text \<open>
  Claim C7: a positive blur below 0.3, the smallest sigma the library takes, is raised
  to 0.3 and the blur call is issued with it; when \<open>filters\<close> is absent, or \<open>blur\<close> is
  absent or zero, no blur call is issued at all.
\<close>

theorem blur_clamped_or_skipped:
  "(filters_b b = Some f \<and> blur f = Some r \<and> 0 < r \<and> r < 3 / 10 \<longrightarrow>
      filter is_blur (POST_calls b) = [Blur (3 / 10)]) \<and>
   (filters_b b = None \<or> (filters_b b = Some f \<and> (blur f = None \<or> blur f = Some 0)) \<longrightarrow>
      filter is_blur (POST_calls b) = [])"
  by (auto simp: blur_calls blur_stage_def filters_of_def no_filters_def)

theorem blur_clamped_or_skipped_witness:
  "filter is_blur (POST_calls ((image_only ''aW1n'')
      \<lparr>filters_b := Some (no_filters\<lparr>blur := Some (1 / 10)\<rparr>)\<rparr>)) = [Blur (3 / 10)] \<and>
   filter is_blur (POST_calls ((image_only ''aW1n'')
      \<lparr>filters_b := Some (no_filters\<lparr>blur := Some 0\<rparr>)\<rparr>)) = [] \<and>
   filter is_blur (POST_calls (image_only ''aW1n'')) = []"
  using blur_clamped_or_skipped [of "(image_only ''aW1n'')
      \<lparr>filters_b := Some (no_filters\<lparr>blur := Some (1 / 10)\<rparr>)\<rparr>"
      "no_filters\<lparr>blur := Some (1 / 10)\<rparr>" "1 / 10"]
    blur_clamped_or_skipped [of "(image_only ''aW1n'')
      \<lparr>filters_b := Some (no_filters\<lparr>blur := Some 0\<rparr>)\<rparr>" "no_filters\<lparr>blur := Some 0\<rparr>" 0]
    blur_clamped_or_skipped [of "image_only ''aW1n''" no_filters 0]
  by (simp add: image_only_def)

subsection \<open>Quality\<close>

text \<open>
  Claim C9, as the specification states it: for \<open>png\<close> the encode stage disregards
  \<open>quality\<close>, so the encoding does not depend on it. The handler passes \<open>quality\<close> to the
  PNG encoder: two \<open>png\<close> requests that differ in nothing but the quality issue
  different encoder calls.
\<close>

theorem png_quality_forwarded:
  "POST_calls ((image_only ''aW1n'')\<lparr>format_b := Some ''png'', quality_b := Some 50\<rparr>) = [Png 50] \<and>
   POST_calls ((image_only ''aW1n'')\<lparr>format_b := Some ''png'', quality_b := Some 90\<rparr>) = [Png 90] \<and>
   POST_calls ((image_only ''aW1n'')\<lparr>format_b := Some ''png'', quality_b := Some 50\<rparr>) \<noteq>
   POST_calls ((image_only ''aW1n'')\<lparr>format_b := Some ''png'', quality_b := Some 90\<rparr>)"
  by (simp add: POST_calls_unfold)

lemma encoder_calls: "filter is_encoder (POST_calls b) = format_stage (format_of b) (quality_of b)"
proof -
  have "filter is_encoder (resize_stage w h) = []" for w h
    by (simp add: resize_stage_def is_encoder_def)
  moreover have "filter is_encoder (rotate_stage r) = []" for r
    by (simp add: rotate_stage_def is_encoder_def split: option.splits)
  moreover have "filter is_encoder (brightness_stage f) = []" for f
    by (simp add: brightness_stage_def is_encoder_def split: option.splits)
  moreover have "filter is_encoder (saturation_stage f) = []" for f
    by (simp add: saturation_stage_def is_encoder_def split: option.splits)
  moreover have "filter is_encoder (contrast_stage f) = []" for f
    by (simp add: contrast_stage_def is_encoder_def split: option.splits)
  moreover have "filter is_encoder (blur_stage f) = []" for f
    by (simp add: blur_stage_def is_encoder_def split: option.splits)
  moreover have "filter is_encoder (sharpen_stage f) = []" for f
    by (simp add: sharpen_stage_def is_encoder_def split: option.splits)
  moreover have "filter is_encoder (format_stage fmt q) = format_stage fmt q" for fmt q
    by (simp add: format_stage_def is_encoder_def)
  ultimately show ?thesis
    by (simp add: POST_calls_def)
qed

text \<open>
  Claim C9, as the handler has it: every request issues exactly one encoder call, and
  for \<open>png\<close> as for \<open>webp\<close> and \<open>jpeg\<close> that call carries the quality of the request, 90
  when the request has none.
\<close>

theorem quality_reaches_every_encoder:
  "filter is_encoder (POST_calls b) =
     [if format_of b = ''png'' then Png (quality_of b)
      else if format_of b = ''webp'' then Webp (quality_of b)
      else Jpeg (quality_of b)] \<and>
   quality_of b = (case quality_b b of None \<Rightarrow> 90 | Some q \<Rightarrow> q)"
  by (simp add: encoder_calls format_stage_cases quality_of_def)

subsection \<open>Validation\<close>






subsection \<open>Resize\<close>

lemma scaled_le:
  assumes "of_nat n * s \<le> of_int m" and "1 \<le> m"
  shows "int (scaled n s) \<le> m"
proof -
  have "round (of_nat n * s) \<le> round (of_int m :: rat)"
    using assms(1) by (rule round_mono)
  then have "round (of_nat n * s) \<le> m"
    by simp
  with assms(2) show ?thesis
    by (simp add: scaled_def)
qed

lemma scaled_one: "0 < n \<Longrightarrow> scaled n 1 = n"
  by (simp add: scaled_def)

lemma scaled_le_source:
  assumes "0 < n" and "0 \<le> s" and "s \<le> 1"
  shows "scaled n s \<le> n"
proof -
  have "of_nat n * s \<le> (of_nat n :: rat) * 1"
    using assms by (intro mult_left_mono) simp_all
  then have "of_nat n * s \<le> (of_int (int n) :: rat)"
    by simp
  from scaled_le [OF this] assms(1) show ?thesis
    by simp
qed

lemma scaled_le_target:
  assumes "0 < n" and "s \<le> t / of_nat n" and "0 < t" and "of_int \<lfloor>t\<rfloor> = t"
  shows "of_nat (scaled n s) \<le> t"
proof -
  have "of_nat n * s \<le> of_nat n * (t / of_nat n)"
    using assms(2) by (intro mult_left_mono) simp_all
  also have "\<dots> = t"
    using assms(1) by simp
  finally have "of_nat n * s \<le> t" .
  then have le: "of_nat n * s \<le> of_int \<lfloor>t\<rfloor>"
    by (simp only: assms(4))
  have "0 < \<lfloor>t\<rfloor>"
    using assms(3,4) by (metis of_int_0_less_iff)
  then have "1 \<le> \<lfloor>t\<rfloor>"
    by simp
  from scaled_le [OF le this] have "(of_int (int (scaled n s)) :: rat) \<le> of_int \<lfloor>t\<rfloor>"
    by (simp only: of_int_le_iff)
  then show ?thesis
    using assms(4) by simp
qed

lemma min_opt_ratio:
  assumes "0 < sw" and "0 < sh"
    and "case tw of None \<Rightarrow> True | Some w \<Rightarrow> 0 < w"
    and "case th of None \<Rightarrow> True | Some h \<Rightarrow> 0 < h"
    and "tw \<noteq> None \<or> th \<noteq> None"
  shows "\<exists>r. min_opt (map_option (\<lambda>w. w / of_nat sw) tw) (map_option (\<lambda>h. h / of_nat sh) th) = Some r \<and>
          0 < r \<and>
          (case tw of None \<Rightarrow> True | Some w \<Rightarrow> r \<le> w / of_nat sw) \<and>
          (case th of None \<Rightarrow> True | Some h \<Rightarrow> r \<le> h / of_nat sh) \<and>
          ((case tw of None \<Rightarrow> False | Some w \<Rightarrow> of_nat sw \<le> w) \<and>
           (case th of None \<Rightarrow> False | Some h \<Rightarrow> of_nat sh \<le> h) \<longrightarrow> 1 \<le> r)"
proof (cases tw)
  case None
  with assms(5) obtain h where h: "th = Some h" by auto
  with assms(2,4) have "0 < h / of_nat sh" by simp
  with None h show ?thesis by (simp add: min_opt_def)
next
  case w: (Some w)
  with assms(1,3) have pw: "0 < w / of_nat sw" by simp
  show ?thesis
  proof (cases th)
    case None
    with w pw show ?thesis by (simp add: min_opt_def)
  next
    case h: (Some h)
    with assms(2,4) have ph: "0 < h / of_nat sh" by simp
    have "1 \<le> w / of_nat sw" if "of_nat sw \<le> w"
      using that assms(1) by (simp add: le_divide_eq)
    moreover have "1 \<le> h / of_nat sh" if "of_nat sh \<le> h"
      using that assms(2) by (simp add: le_divide_eq)
    ultimately show ?thesis
      using w h pw ph by (simp add: min_opt_def)
  qed
qed

lemma floor_numeral_div:
  "\<lfloor>(numeral a :: rat) / numeral b\<rfloor> = numeral a div numeral b"
  using floor_divide_of_int_eq [of "numeral a" "numeral b", where ?'a = rat] by simp

lemma output_dims_append:
  "output_dims (xs @ ys) src =
     (case output_dims xs src of None \<Rightarrow> None | Some d \<Rightarrow> output_dims ys d)"
  by (induction xs arbitrary: src) (simp_all split: option.splits)

lemma output_dims_resize_stage:
  "output_dims (resize_stage (width_b b) (height_b b)) src = resized b src"
  by (simp add: resized_def resize_stage_def call_output_def split: option.splits)

lemma output_dims_rotate_stage:
  "\<not> truthy_num r \<Longrightarrow> output_dims (rotate_stage r) src = Some src"
  by (simp add: rotate_stage_def truthy_num_def split: option.splits)

lemma output_dims_colour_stages:
  "output_dims (brightness_stage f) src = Some src"
  "output_dims (saturation_stage f) src = Some src"
  "output_dims (contrast_stage f) src = Some src"
  "output_dims (blur_stage f) src = Some src"
  "output_dims (sharpen_stage f) src = Some src"
  "output_dims (format_stage fmt q) src = Some src"
  by (simp_all add: brightness_stage_def saturation_stage_def contrast_stage_def
      blur_stage_def sharpen_stage_def format_stage_def call_output_def split: option.splits)

lemma returned_dims_no_rotation:
  "\<not> truthy_num (rotate_b b) \<Longrightarrow> returned_dims b src = resized b src"
  by (simp add: returned_dims_def POST_calls_def output_dims_append output_dims_resize_stage
      output_dims_rotate_stage output_dims_colour_stages split: option.splits)

lemmas dims_unfold =
  returned_dims_def call_output_def resize_output_def fit_inside_def min_opt_def
  scaled_def round_def rotate_output_def floor_numeral_div

text \<open>
  Claim C6, as the specification states it: for every request with target dimensions
  the output exceeds neither requested dimension, and has the dimensions of the source
  when both requested dimensions exceed them. The handler resizes before it rotates.
  With a quarter turn a picture of 1600 by 900 fitted into 640 by 480 comes back as
  360 by 640, higher than the 480 asked for; and with a box larger than the source it
  comes back as 900 by 1600, not with the dimensions of the source.
\<close>

theorem rotation_after_resize_leaves_box:
  "returned_dims ((image_only ''aW1n'')
      \<lparr>width_b := Some 640, height_b := Some 480, rotate_b := Some 90\<rparr>) (1600, 900)
     = Some (360, 640) \<and>
   \<not> (\<exists>ow oh. returned_dims ((image_only ''aW1n'')
          \<lparr>width_b := Some 640, height_b := Some 480, rotate_b := Some 90\<rparr>) (1600, 900)
            = Some (ow, oh) \<and> ow \<le> 640 \<and> oh \<le> 480) \<and>
   returned_dims ((image_only ''aW1n'')
      \<lparr>width_b := Some 8000, height_b := Some 1000, rotate_b := Some 90\<rparr>) (1600, 900)
     = Some (900, 1600) \<and>
   returned_dims ((image_only ''aW1n'')
      \<lparr>width_b := Some 8000, height_b := Some 1000, rotate_b := Some 90\<rparr>) (1600, 900)
     \<noteq> Some (1600, 900)"
  by (simp add: POST_calls_unfold dims_unfold)

text \<open>
  Claim C6, as the handler has it: for a request whose target dimensions are positive
  whole numbers (one of them or both), the handler issues the resize call with
  \<open>fit: 'inside'\<close> and \<open>withoutEnlargement: true\<close> and the dimensions of the request, on
  the picture as decoded and before any rotation. Under the resize primitive as the
  specification describes it, the picture after the resize stage has both sides scaled
  by one factor that is at most 1, exceeds neither the source nor a requested
  dimension, and has the dimensions of the source when both requested dimensions are
  at least the source's. These are the dimensions of the returned picture when the
  request has no rotation (\<open>rotate\<close> absent or zero).
\<close>

theorem resize_fits_inside_never_enlarges:
  assumes "0 < sw" and "0 < sh"
    and "target_ok (width_b b)" and "target_ok (height_b b)"
    and "width_b b \<noteq> None \<or> height_b b \<noteq> None"
  shows "resize_stage (width_b b) (height_b b) =
           [Resize (width_b b) (height_b b) \<lparr>fit = ''inside'', withoutEnlargement = True\<rparr>] \<and>
         (\<exists>ow oh s. resized b (sw, sh) = Some (ow, oh) \<and>
            0 < s \<and> s \<le> 1 \<and> ow = scaled sw s \<and> oh = scaled sh s \<and>
            ow \<le> sw \<and> oh \<le> sh \<and>
            (case width_b b of None \<Rightarrow> True | Some w \<Rightarrow> of_nat ow \<le> w) \<and>
            (case height_b b of None \<Rightarrow> True | Some h \<Rightarrow> of_nat oh \<le> h) \<and>
            ((case width_b b of None \<Rightarrow> False | Some w \<Rightarrow> of_nat sw \<le> w) \<and>
             (case height_b b of None \<Rightarrow> False | Some h \<Rightarrow> of_nat sh \<le> h) \<longrightarrow>
               ow = sw \<and> oh = sh) \<and>
            (\<not> truthy_num (rotate_b b) \<longrightarrow> returned_dims b (sw, sh) = Some (ow, oh)))"
proof -
  let ?tw = "width_b b" and ?th = "height_b b"
  have truthy: "truthy_num ?tw \<or> truthy_num ?th"
    using assms(3-5) by (cases ?tw; cases ?th) (auto simp: truthy_num_def target_ok_def)
  then have call: "resize_stage ?tw ?th =
      [Resize ?tw ?th \<lparr>fit = ''inside'', withoutEnlargement = True\<rparr>]"
    by (simp add: resize_stage_def)
  have "case ?tw of None \<Rightarrow> True | Some w \<Rightarrow> 0 < w"
    and "case ?th of None \<Rightarrow> True | Some h \<Rightarrow> 0 < h"
    using assms(3,4) by (simp_all add: target_ok_def split: option.splits)
  from min_opt_ratio [OF assms(1,2) this assms(5)] obtain r where
    r: "min_opt (map_option (\<lambda>w. w / of_nat sw) ?tw) (map_option (\<lambda>h. h / of_nat sh) ?th) = Some r"
    and pos: "0 < r"
    and rw: "case ?tw of None \<Rightarrow> True | Some w \<Rightarrow> r \<le> w / of_nat sw"
    and rh: "case ?th of None \<Rightarrow> True | Some h \<Rightarrow> r \<le> h / of_nat sh"
    and big: "(case ?tw of None \<Rightarrow> False | Some w \<Rightarrow> of_nat sw \<le> w) \<and>
              (case ?th of None \<Rightarrow> False | Some h \<Rightarrow> of_nat sh \<le> h) \<longrightarrow> 1 \<le> r"
    by blast
  define s where "s = min 1 r"
  have s: "0 < s" "s \<le> 1" "s \<le> r"
    using pos by (simp_all add: s_def)
  have out: "resized b (sw, sh) = Some (scaled sw s, scaled sh s)"
    by (simp add: resized_def call resize_output_def fit_inside_def r s_def Let_def)
  have w_le: "case ?tw of None \<Rightarrow> True | Some w \<Rightarrow> of_nat (scaled sw s) \<le> w"
  proof (cases ?tw)
    case None
    then show ?thesis by simp
  next
    case (Some w)
    with rw s(3) have "s \<le> w / of_nat sw" by simp
    moreover from Some assms(3) have "0 < w" "of_int \<lfloor>w\<rfloor> = w"
      by (simp_all add: target_ok_def)
    ultimately show ?thesis
      using Some scaled_le_target [OF assms(1)] by simp
  qed
  have h_le: "case ?th of None \<Rightarrow> True | Some h \<Rightarrow> of_nat (scaled sh s) \<le> h"
  proof (cases ?th)
    case None
    then show ?thesis by simp
  next
    case (Some h)
    with rh s(3) have "s \<le> h / of_nat sh" by simp
    moreover from Some assms(4) have "0 < h" "of_int \<lfloor>h\<rfloor> = h"
      by (simp_all add: target_ok_def)
    ultimately show ?thesis
      using Some scaled_le_target [OF assms(2)] by simp
  qed
  have same: "scaled sw s = sw \<and> scaled sh s = sh"
    if "(case ?tw of None \<Rightarrow> False | Some w \<Rightarrow> of_nat sw \<le> w) \<and>
        (case ?th of None \<Rightarrow> False | Some h \<Rightarrow> of_nat sh \<le> h)"
  proof -
    from that big have "s = 1" by (simp add: s_def)
    then show ?thesis
      using assms(1,2) by (simp add: scaled_one)
  qed
  have ret: "\<not> truthy_num (rotate_b b) \<longrightarrow>
      returned_dims b (sw, sh) = Some (scaled sw s, scaled sh s)"
    using out by (simp add: returned_dims_no_rotation)
  have "scaled sw s \<le> sw" and "scaled sh s \<le> sh"
    using s assms(1,2) by (simp_all add: scaled_le_source)
  with out s(1,2) w_le h_le same call ret show ?thesis
    by blast
qed

theorem resize_fits_inside_never_enlarges_witness:
  "returned_dims ((image_only ''aW1n'')\<lparr>width_b := Some 800, height_b := Some 100\<rparr>) (1600, 900)
     = Some (178, 100) \<and>
   returned_dims ((image_only ''aW1n'')\<lparr>width_b := Some 8000, height_b := Some 1000\<rparr>) (1600, 900)
     = Some (1600, 900)"
proof -
  have ok: "target_ok (Some 800)" "target_ok (Some 100)" "target_ok (Some 8000)" "target_ok (Some 1000)"
    by (simp_all add: target_ok_def)
  have small: "resized ((image_only ''aW1n'')\<lparr>width_b := Some 800, height_b := Some 100\<rparr>) (1600, 900)
     = Some (178, 100)"
    by (simp add: image_only_def resized_def resize_stage_def truthy_num_def
      resize_output_def fit_inside_def min_opt_def scaled_def round_def floor_numeral_div)
  have "returned_dims ((image_only ''aW1n'')\<lparr>width_b := Some 800, height_b := Some 100\<rparr>) (1600, 900)
     = Some (178, 100)"
    using resize_fits_inside_never_enlarges [of 1600 900
      "(image_only ''aW1n'')\<lparr>width_b := Some 800, height_b := Some 100\<rparr>"] ok small
    by (auto simp: image_only_def truthy_num_def)
  moreover have "returned_dims ((image_only ''aW1n'')\<lparr>width_b := Some 8000, height_b := Some 1000\<rparr>) (1600, 900)
     = Some (1600, 900)"
    using resize_fits_inside_never_enlarges [of 1600 900
      "(image_only ''aW1n'')\<lparr>width_b := Some 8000, height_b := Some 1000\<rparr>"] ok
    by (auto simp: image_only_def truthy_num_def)
  ultimately show ?thesis by simp
qed

section \<open>Properties of the batch converter\<close>

lemma processFile_settled:
  "loads e f \<Longrightarrow> processFile e st f prev = Some (map (settled e st f) prev)"
  by (auto simp: loads_def processFile_def settled_def converted_def set_completed_def
      set_error_def Let_def split: option.splits)

lemma for_files_fold:
  "list_all (loads e) fs \<Longrightarrow>
   for_files e st fs cur = Some (map (\<lambda>g. fold (settled e st) fs g) cur)"
proof (induction fs arbitrary: cur)
  case Nil
  then show ?case by simp
next
  case (Cons f fs)
  then show ?case by (simp add: processFile_settled comp_def)
qed

lemma settled_id: "id_f (settled e st f g) = id_f g"
  by (simp add: settled_def split: option.splits)

lemma settled_other: "id_f g \<noteq> id_f f \<Longrightarrow> settled e st f g = g"
  by (simp add: settled_def)

lemma settled_status: "id_f g = id_f f \<Longrightarrow> status (settled e st f g) = outcome e st f"
  by (simp add: settled_def outcome_def split: option.splits)

lemma fold_settled_other:
  "id_f g \<notin> id_f ` set fs \<Longrightarrow> fold (settled e st) fs g = g"
  by (induction fs arbitrary: g) (simp_all add: settled_other)

lemma fold_settled_status:
  "distinct (map id_f fs) \<Longrightarrow> f \<in> set fs \<Longrightarrow> id_f g = id_f f \<Longrightarrow>
   status (fold (settled e st) fs g) = outcome e st f"
proof (induction fs arbitrary: g)
  case Nil
  then show ?case by simp
next
  case (Cons x xs)
  show ?case
  proof (cases "f = x")
    case True
    from Cons.prems(1) have "id_f x \<notin> id_f ` set xs" by simp
    with True Cons.prems(3) have "id_f (settled e st x g) \<notin> id_f ` set xs"
      by (simp add: settled_id)
    then have "fold (settled e st) xs (settled e st x g) = settled e st x g"
      by (rule fold_settled_other)
    with True Cons.prems(3) show ?thesis by (simp add: settled_status)
  next
    case False
    with Cons.prems(2) have mem: "f \<in> set xs" by simp
    then have "id_f f \<in> id_f ` set xs" by (rule imageI)
    with Cons.prems(1) have "id_f f \<noteq> id_f x" by auto
    with Cons.prems(3) have "settled e st x g = g" by (simp add: settled_other)
    with Cons.IH [OF _ mem Cons.prems(3)] Cons.prems(1) show ?thesis by simp
  qed
qed

lemma fold_settled_id: "id_f (fold (settled e st) fs g) = id_f g"
  by (induction fs arbitrary: g) (simp_all add: settled_id)

text \<open>The statuses after the first \<open>k\<close> files of a run.\<close>

lemma statuses_after_prefix:
  assumes "distinct (map id_f fs)"
  shows "map (\<lambda>g. status (fold (settled e st) (take k fs) g)) (map (\<lambda>f. f\<lparr>status := Processing\<rparr>) fs) =
         map (outcome e st) (take k fs) @ replicate (length fs - k) Processing"
proof -
  let ?mark = "\<lambda>f::BatchFile. f\<lparr>status := Processing\<rparr>"
  let ?after = "\<lambda>g. status (fold (settled e st) (take k fs) g)"
  have d: "distinct (map id_f (take k fs))"
    using assms by (simp add: distinct_take take_map [symmetric])
  have "?after (?mark f) = outcome e st f" if "f \<in> set (take k fs)" for f
    using fold_settled_status [OF d that, of "?mark f" e st] by simp
  then have "map ?after (map ?mark (take k fs)) = map (outcome e st) (take k fs)"
    by simp
  moreover have "map ?after (map ?mark (drop k fs)) = replicate (length fs - k) Processing"
  proof -
    have disj: "id_f ` set (take k fs) \<inter> id_f ` set (drop k fs) = {}"
      using assms
      by (metis append_take_drop_id distinct_append map_append set_map)
    have "?after (?mark f) = Processing" if "f \<in> set (drop k fs)" for f
    proof -
      from that have "id_f f \<in> id_f ` set (drop k fs)" by (rule imageI)
      with disj have "id_f (?mark f) \<notin> id_f ` set (take k fs)" by auto
      then have "fold (settled e st) (take k fs) (?mark f) = ?mark f"
        by (rule fold_settled_other)
      then show ?thesis by simp
    qed
    then have "map ?after (map ?mark (drop k fs)) = map (\<lambda>_. Processing) (drop k fs)"
      by simp
    then show ?thesis by (simp add: map_replicate_const)
  qed
  ultimately have "map ?after (map ?mark (take k fs @ drop k fs)) =
      map (outcome e st) (take k fs) @ replicate (length fs - k) Processing"
    by (simp only: map_append)
  then show ?thesis by simp
qed

lemma during_run_statuses:
  assumes "distinct (map id_f (files s))" and "list_all (loads e) (take k (files s))"
  shows "\<exists>s'. during_run e s k = Some s' \<and> isProcessing s' \<and> settings s' = settings s \<and>
           map id_f (files s') = map id_f (files s) \<and>
           map status (files s') =
             map (outcome e (settings s)) (take k (files s)) @
             replicate (length (files s) - k) Processing"
  using statuses_after_prefix [OF assms(1), of e "settings s" k]
  by (simp add: during_run_def for_files_fold [OF assms(2)] begin_run_def comp_def
      fold_settled_id)


lemmas batch_unfold =
  processAllFiles_def during_run_def begin_run_def click_convert_def
  done_once_def initial_state_def enrolled_def processFile_def test_env_def
  nth_opt_def request_body_def POST_def truthy_str_def test_lib_def list_all_iff
  ok_def status_of_def text_of_def set_completed_def set_error_def
  POST_calls_unfold

lemma processAllFiles_during_run:
  "processAllFiles e s =
     map_option (\<lambda>s'. s'\<lparr>isProcessing := False\<rparr>) (during_run e s (length (files s)))"
  by (simp add: processAllFiles_def during_run_def split: option.splits)

lemma count_status_map:
  "count_status st fs = length (filter (\<lambda>x. x = st) (map status fs))"
  by (simp add: count_status_def filter_map comp_def)

lemma outcome_terminal: "outcome e st f = Completed \<or> outcome e st f = Error"
  by (simp add: outcome_def split: option.splits)

lemma outcome_not_processing: "outcome e st f \<noteq> Processing"
  using outcome_terminal [of e st f] by auto

subsection \<open>How many items are processing\<close>

text \<open>
  Claim C2, as the specification states it: during an active run at most one item has
  the status \<open>Processing\<close> at any instant. The run sets the status of every file to
  \<open>Processing\<close> before it converts the first one: with three files enrolled, all three
  are \<open>Processing\<close> at once.
\<close>

theorem all_processing_at_once:
  "during_run test_env three_files 0 = Some (begin_run three_files) \<and>
   map status (files (begin_run three_files)) = [Processing, Processing, Processing] \<and>
   \<not> count_status Processing (files (begin_run three_files)) \<le> 1"
  by (simp add: during_run_def begin_run_def three_files_def initial_state_def enrolled_def
      count_status_def)

text \<open>
  Claim C2, as the component has it: a run marks every enrolled file \<open>Processing\<close> at
  its start and then converts the files one after the other, so after the first \<open>k\<close>
  files (identifiers distinct, the reads of those files succeeding) the run is still
  active and exactly the remaining files, all but \<open>k\<close>, are \<open>Processing\<close>.
\<close>

theorem processing_count_during_run:
  assumes "distinct (map id_f (files s))" and "list_all (loads e) (take k (files s))"
  shows "\<exists>s'. during_run e s k = Some s' \<and> isProcessing s' \<and>
           count_status Processing (files s') = length (files s) - k"
proof -
  from during_run_statuses [OF assms] obtain s' where
    run: "during_run e s k = Some s'" "isProcessing s'"
    and st: "map status (files s') =
      map (outcome e (settings s)) (take k (files s)) @
      replicate (length (files s) - k) Processing"
    by blast
  have "filter (\<lambda>x. x = Processing) (map (outcome e (settings s)) (take k (files s))) = []"
    by (simp add: filter_empty_conv outcome_not_processing)
  then have "count_status Processing (files s') = length (files s) - k"
    by (simp add: count_status_map st)
  with run show ?thesis by blast
qed

theorem processing_count_during_run_witness:
  "map_option (\<lambda>s. count_status Processing (files s)) (during_run test_env three_files 1) = Some 2"
proof -
  have "distinct (map id_f (files three_files))"
    by (simp add: three_files_def initial_state_def enrolled_def)
  moreover have "list_all (loads test_env) (take 1 (files three_files))"
    by (simp add: three_files_def initial_state_def enrolled_def loads_def test_env_def)
  ultimately show ?thesis
    using processing_count_during_run [of three_files test_env 1]
    by (auto simp: three_files_def initial_state_def)
qed

subsection \<open>Failures stay with their item\<close>

text \<open>
  For files with distinct identifiers whose reads succeed, the run goes through the
  whole list and ends; every file ends \<open>Completed\<close> when its own conversion succeeds and
  \<open>Error\<close> when its own conversion fails, whatever happened to the files before it.
\<close>

lemma run_isolates_failures:
  assumes "distinct (map id_f (files s))" and "list_all (loads e) (files s)"
  shows "\<exists>s'. processAllFiles e s = Some s' \<and> \<not> isProcessing s' \<and>
           map id_f (files s') = map id_f (files s) \<and>
           map status (files s') = map (outcome e (settings s)) (files s)"
proof -
  from assms(2) have "list_all (loads e) (take (length (files s)) (files s))"
    by simp
  from during_run_statuses [OF assms(1) this] show ?thesis
    by (auto simp: processAllFiles_during_run)
qed

lemma outcome_test_env:
  "outcome test_env (settings initial_state) (enrolled i ''aW1n'' st) = Completed"
  "outcome test_env (settings initial_state) (enrolled i ''Y29ycnVwdA=='' st) = Error"
  by (simp_all add: outcome_def converted_def test_env_def enrolled_def initial_state_def
      nth_opt_def request_body_def POST_def truthy_str_def test_lib_def list_all_iff
      ok_def status_of_def)

lemma three_facts:
  "distinct (map id_f (files three_files))"
  "list_all (loads test_env) (take k (files three_files))"
  "settings three_files = settings initial_state"
  by (auto simp: three_files_def initial_state_def enrolled_def loads_def test_env_def list_all_iff
      dest!: in_set_takeD)

lemma three_outcomes:
  "map (outcome test_env (settings three_files)) (files three_files) = [Completed, Error, Completed]"
  by (simp add: three_files_def outcome_test_env)

lemma three_during_run:
  "map_option (\<lambda>s. map status (files s)) (during_run test_env three_files k) =
     Some (take k [Completed, Error, Completed] @ replicate (3 - k) Processing)"
proof -
  from during_run_statuses [OF three_facts(1,2), of k] obtain s' where
    "during_run test_env three_files k = Some s'"
    and "map status (files s') =
      map (outcome test_env (settings three_files)) (take k (files three_files)) @
      replicate (length (files three_files) - k) Processing"
    by blast
  moreover have "length (files three_files) = 3"
    by (simp add: three_files_def)
  ultimately show ?thesis
    by (simp add: three_outcomes flip: take_map)
qed

lemma three_run:
  "map_option (\<lambda>s. map status (files s)) (processAllFiles test_env three_files) =
     Some [Completed, Error, Completed]"
proof -
  have "length (files three_files) = 3"
    by (simp add: three_files_def)
  with three_during_run [of 3] show ?thesis
    by (simp add: processAllFiles_during_run option.map_comp comp_def)
qed

lemma run_isolates_failures_example:
  "map_option (\<lambda>s. map status (files s)) (processAllFiles test_env three_files)
     = Some [Completed, Error, Completed]"
proof -
  have "distinct (map id_f (files three_files))"
    by (simp add: three_files_def initial_state_def enrolled_def)
  moreover have "list_all (loads test_env) (files three_files)"
    by (simp add: three_files_def initial_state_def enrolled_def loads_def test_env_def)
  moreover have "settings three_files = settings initial_state"
    by (simp add: three_files_def)
  ultimately show ?thesis
    using run_isolates_failures [of three_files test_env]
    by (auto simp: three_files_def outcome_test_env)
qed


text \<open>
  Claim C5: a failure on one item is recorded on that item only and does not abort the
  run. \<open>processFile\<close> catches a failed request and a refusal of the endpoint, but its
  reader has no error handler: when the read of the second of three files fails, the
  promise is never resolved, the run stays active for ever and the third file is never
  converted. And two entries that were given the same identifier share their updates:
  the failure of the second entry is written on the first.
\<close>

theorem unreadable_file_stalls_run:
  "map_option (\<lambda>s. (isProcessing s, map status (files s)))
     (during_run unreadable_env three_files 1) = Some (True, [Completed, Processing, Processing]) \<and>
   during_run unreadable_env three_files 2 = None \<and>
   processAllFiles unreadable_env three_files = None \<and>
   map_option (\<lambda>s. map status (files s)) (processAllFiles test_env same_id_files)
     = Some [Error, Error]"
  by (simp add: batch_unfold unreadable_env_def three_files_def same_id_files_def Let_def
      numeral_2_eq_2)

subsection \<open>Status transitions\<close>

text \<open>
  Claim C3, as the specification states it: no operation, a later run included, moves
  an item out of \<open>Completed\<close> or \<open>Error\<close>. A first run leaves the one file \<open>Completed\<close>;
  the button is enabled again, and the next run sets the file to \<open>Processing\<close> and, the
  network being down this time, leaves it in \<open>Error\<close>.
\<close>

theorem completed_item_processed_again:
  "processAllFiles test_env (initial_state\<lparr>files := [enrolled 0 ''aW1n'' Pending]\<rparr>) = Some done_once \<and>
   map status (files done_once) = [Completed] \<and>
   click_convert test_env done_once = processAllFiles test_env done_once \<and>
   during_run test_env done_once 0 = Some (begin_run done_once) \<and>
   map status (files (begin_run done_once)) = [Processing] \<and>
   map_option (\<lambda>s. map status (files s))
     (processAllFiles (test_env\<lparr>fetch := (\<lambda>b. None)\<rparr>) done_once) = Some [Error]"
  by (simp add: batch_unfold)

text \<open>
  Claim C3, as the component has it: the start of a run sets every enrolled file to
  \<open>Processing\<close>, whatever its status was, \<open>Completed\<close> and \<open>Error\<close> included; after that
  (identifiers distinct, reads succeeding) the step for the \<open>k\<close>-th file changes the
  status of that file alone, from \<open>Processing\<close> to \<open>Completed\<close> or to \<open>Error\<close>.
\<close>

theorem status_changes_in_run:
  "map status (files (begin_run s)) = replicate (length (files s)) Processing \<and>
   (distinct (map id_f (files s)) \<and> list_all (loads e) (take (Suc k) (files s)) \<and>
    k < length (files s) \<longrightarrow>
      (\<exists>s1 s2. during_run e s k = Some s1 \<and> during_run e s (Suc k) = Some s2 \<and>
         map status (files s1) ! k = Processing \<and>
         (outcome e (settings s) (files s ! k) = Completed \<or>
          outcome e (settings s) (files s ! k) = Error) \<and>
         map status (files s2) =
           (map status (files s1))[k := outcome e (settings s) (files s ! k)]))"
proof
  show "map status (files (begin_run s)) = replicate (length (files s)) Processing"
    by (simp add: begin_run_def comp_def map_replicate_const)
  show "distinct (map id_f (files s)) \<and> list_all (loads e) (take (Suc k) (files s)) \<and>
    k < length (files s) \<longrightarrow>
      (\<exists>s1 s2. during_run e s k = Some s1 \<and> during_run e s (Suc k) = Some s2 \<and>
         map status (files s1) ! k = Processing \<and>
         (outcome e (settings s) (files s ! k) = Completed \<or>
          outcome e (settings s) (files s ! k) = Error) \<and>
         map status (files s2) =
           (map status (files s1))[k := outcome e (settings s) (files s ! k)])"
  proof
    assume a: "distinct (map id_f (files s)) \<and> list_all (loads e) (take (Suc k) (files s)) \<and>
      k < length (files s)"
    let ?fs = "files s" and ?out = "outcome e (settings s)"
    from a have d: "distinct (map id_f ?fs)" and l2: "list_all (loads e) (take (Suc k) ?fs)"
      and k: "k < length ?fs" by simp_all
    from l2 k have l1: "list_all (loads e) (take k ?fs)"
      by (simp add: take_Suc_conv_app_nth)
    from during_run_statuses [OF d l1] obtain s1 where
      s1: "during_run e s k = Some s1"
      and st1: "map status (files s1) = map ?out (take k ?fs) @ replicate (length ?fs - k) Processing"
      by blast
    from during_run_statuses [OF d l2] obtain s2 where
      s2: "during_run e s (Suc k) = Some s2"
      and st2: "map status (files s2) =
        map ?out (take (Suc k) ?fs) @ replicate (length ?fs - Suc k) Processing"
      by blast
    have len: "length (map ?out (take k ?fs)) = k"
      using k by simp
    have rep: "replicate (length ?fs - k) Processing =
        Processing # replicate (length ?fs - Suc k) Processing"
      using k by (simp add: Suc_diff_Suc flip: replicate_Suc)
    have at_k: "map status (files s1) ! k = Processing"
      unfolding st1 rep using len by (simp add: nth_append)
    have "(map status (files s1))[k := ?out (?fs ! k)] =
        map ?out (take k ?fs) @ ?out (?fs ! k) # replicate (length ?fs - Suc k) Processing"
      unfolding st1 rep using len by (simp add: list_update_append)
    also have "\<dots> = map status (files s2)"
      unfolding st2 using k by (simp add: take_Suc_conv_app_nth)
    finally have "map status (files s2) = (map status (files s1))[k := ?out (?fs ! k)]"
      by simp
    with s1 s2 at_k outcome_terminal [of e "settings s" "?fs ! k"]
    show "\<exists>s1 s2. during_run e s k = Some s1 \<and> during_run e s (Suc k) = Some s2 \<and>
         map status (files s1) ! k = Processing \<and>
         (?out (?fs ! k) = Completed \<or> ?out (?fs ! k) = Error) \<and>
         map status (files s2) = (map status (files s1))[k := ?out (?fs ! k)]"
      by blast
  qed
qed

theorem status_changes_in_run_witness:
  "map status (files (begin_run done_once)) = [Processing] \<and>
   map_option (\<lambda>s. map status (files s)) (during_run test_env three_files 1)
     = Some [Completed, Processing, Processing] \<and>
   map_option (\<lambda>s. map status (files s)) (during_run test_env three_files 2)
     = Some [Completed, Error, Processing]"
proof -
  have d: "distinct (map id_f (files three_files))"
    by (simp add: three_files_def initial_state_def enrolled_def)
  have l: "list_all (loads test_env) (take (Suc 1) (files three_files))"
    by (simp add: three_files_def initial_state_def enrolled_def loads_def test_env_def)
  have k: "1 < length (files three_files)"
    by (simp add: three_files_def)
  have out: "outcome test_env (settings three_files) (files three_files ! 1) = Error"
    by (simp add: three_files_def outcome_test_env)
  have first: "map_option (\<lambda>s. map status (files s)) (during_run test_env three_files 1)
     = Some [Completed, Processing, Processing]"
    using three_during_run [of 1] by (simp add: numeral_3_eq_3)
  from status_changes_in_run [of three_files test_env 1] d l k obtain s1 s2 where
    s1: "during_run test_env three_files 1 = Some s1"
    and s2: "during_run test_env three_files (Suc 1) = Some s2"
    and upd: "map status (files s2) =
      (map status (files s1))[1 := outcome test_env (settings three_files) (files three_files ! 1)]"
    by blast
  from first s1 have "map status (files s1) = [Completed, Processing, Processing]"
    by simp
  with upd out have "map status (files s2) = [Completed, Error, Processing]"
    by simp
  with s2 have second: "map_option (\<lambda>s. map status (files s)) (during_run test_env three_files 2)
     = Some [Completed, Error, Processing]"
    by (simp add: numeral_2_eq_2)
  have "map status (files (begin_run done_once)) = [Processing]"
    using status_changes_in_run [of done_once test_env 0]
    by (simp add: done_once_def initial_state_def)
  with first second show ?thesis by simp
qed

subsection \<open>Settings during a run\<close>

text \<open>
  Claim C8, as the specification states it: a change of the settings during a run is
  rejected with an error. The handlers of the settings panel have no such guard: while
  a run is active, choosing another format changes the stored settings, and no error
  exists that they could raise.
\<close>

theorem settings_change_accepted_during_run:
  "isProcessing (begin_run three_files) \<and>
   format (settings (begin_run three_files)) = ''webp'' \<and>
   format (settings (setSettings (Change_format ''png'') (begin_run three_files))) = ''png'' \<and>
   isProcessing (setSettings (Change_format ''png'') (begin_run three_files))"
  by (simp add: begin_run_def three_files_def initial_state_def setSettings_def)

lemma setSettings_files: "files (setSettings c s) = files s"
  by (simp add: setSettings_def Let_def)

lemma fold_setSettings_files: "files (fold setSettings cs s) = files s"
  by (induction cs arbitrary: s) (simp_all add: setSettings_files)

lemma setSettings_files_update:
  "setSettings c (s\<lparr>files := cur\<rparr>) = (setSettings c s)\<lparr>files := cur\<rparr>"
  by (simp add: setSettings_def Let_def)

lemma fold_setSettings_files_update:
  "fold setSettings cs (s\<lparr>files := cur\<rparr>) = (fold setSettings cs s)\<lparr>files := cur\<rparr>"
  by (induction cs arbitrary: s) (simp_all add: setSettings_files_update)

lemma concat_take_Suc:
  "concat (take (Suc n) changes) =
     (case changes of [] \<Rightarrow> [] | cs # _ \<Rightarrow> cs) @ concat (take n (tl changes))"
  by (cases changes) simp_all

lemma for_files_changing_eq:
  "for_files_changing e st fs changes s =
     map_option (\<lambda>cur. (fold setSettings (concat (take (length fs) changes)) s)\<lparr>files := cur\<rparr>)
       (for_files e st fs (files s))"
proof (induction fs arbitrary: changes s)
  case Nil
  then show ?case by simp
next
  case (Cons f fs)
  let ?cs = "case changes of [] \<Rightarrow> [] | cs # _ \<Rightarrow> cs"
  show ?case
  proof (cases "processFile e st f (files s)")
    case None
    then show ?thesis by (simp add: fold_setSettings_files)
  next
    case (Some cur)
    then show ?thesis
      by (simp add: fold_setSettings_files Cons.IH concat_take_Suc
          fold_setSettings_files_update option.map_comp comp_def del: take_Suc)
  qed
qed

lemma setSettings_isProcessing_update:
  "setSettings c (s\<lparr>isProcessing := b\<rparr>) = (setSettings c s)\<lparr>isProcessing := b\<rparr>"
  by (simp add: setSettings_def Let_def)

lemma fold_setSettings_isProcessing:
  "fold setSettings cs (s\<lparr>isProcessing := b\<rparr>) = (fold setSettings cs s)\<lparr>isProcessing := b\<rparr>"
  by (induction cs arbitrary: s) (simp_all add: setSettings_isProcessing_update)

lemma fold_setSettings_begin_run:
  "fold setSettings cs (begin_run s) =
     (fold setSettings cs s)\<lparr>isProcessing := True, files := files (begin_run s)\<rparr>"
  by (simp add: begin_run_def fold_setSettings_files_update fold_setSettings_isProcessing)

text \<open>
  Claim C8, as the component has it: changes of the settings made during a run are
  all applied to the stored settings, and none of them reaches the run in progress,
  which converts every one of its files with the settings it started with: the files
  end exactly as in the run without any change.
\<close>

theorem run_keeps_captured_settings:
  "map_option files (processAllFiles_changing e changes s) =
     map_option files (processAllFiles e s) \<and>
   map_option settings (processAllFiles_changing e changes s) =
     map_option (\<lambda>_. settings (fold setSettings (concat (take (length (files s)) changes)) s))
       (processAllFiles e s)"
  by (cases "for_files e (settings s) (files s) (files (begin_run s))")
    (simp_all add: processAllFiles_changing_def processAllFiles_def for_files_changing_eq
      fold_setSettings_begin_run)

theorem run_keeps_captured_settings_witness:
  "map_option (\<lambda>s. map status (files s))
     (processAllFiles_changing test_env [[], [Change_format ''png'']] three_files) =
   Some [Completed, Error, Completed] \<and>
   map_option (\<lambda>s. format (settings s))
     (processAllFiles_changing test_env [[], [Change_format ''png'']] three_files) = Some ''png''"
proof -
  have "map_option (\<lambda>s. map status (files s)) (processAllFiles test_env three_files)
     = Some [Completed, Error, Completed]"
    by (rule three_run)
  then obtain s' where s': "processAllFiles test_env three_files = Some s'"
    and st: "map status (files s') = [Completed, Error, Completed]"
    by auto
  from run_keeps_captured_settings [of test_env "[[], [Change_format ''png'']]" three_files] s'
  obtain t where t: "processAllFiles_changing test_env [[], [Change_format ''png'']] three_files = Some t"
    and "files t = files s'"
    and "settings t = settings (fold setSettings
        (concat (take (length (files three_files)) [[], [Change_format ''png'']])) three_files)"
    by auto
  with st show ?thesis
    by (simp add: three_files_def initial_state_def setSettings_def)
qed

end
